theory Spec2Isabelle
  imports Complex_Main
begin

section \<open>Data model (firewall/models.py)\<close>

text \<open>
  Python text is modelled by \<^typ>\<open>string\<close>: a list of characters with code points 0..255.
  The character tables below are those of Python 3 on that range.
\<close>

datatype ThreatLevel = SAFE | LOW | MEDIUM | HIGH | CRITICAL

datatype Action = ALLOW | BLOCK | SANITIZE | LOG | ALERT

text \<open>
  \<open>DetectionResult\<close>. Scores are Python floats, modelled by reals; of the free-form
  \<open>details\<close> the lexical strategy's match count is kept.
\<close>

record DetectionResult =
  threat_score :: real
  threat_level :: ThreatLevel
  is_malicious :: bool
  categories :: "string list"
  confidence :: real
  details :: "nat option"

text \<open>\<open>PolicyMatch\<close>; \<open>metadata\<close> holds the rule's threshold and the detection score, or nothing.\<close>

record PolicyMatch =
  policy_name :: string
  pm_action :: Action
  pm_severity :: ThreatLevel
  reason :: string
  metadata :: "(real \<times> real) option"

record FirewallRequest =
  prompt :: string
  user_id :: "string option"
  session_id :: "string option"

record FirewallResponse =
  r_action :: Action
  allowed :: bool
  original_prompt :: string
  sanitized_prompt :: "string option"
  r_threat_score :: real
  r_threat_level :: ThreatLevel
  detection :: "DetectionResult option"
  policy_match :: "PolicyMatch option"
  message :: string
  processing_time_ms :: real

record AuditLog =
  request_id :: string
  a_timestamp :: nat
  a_user_id :: "string option"
  a_session_id :: "string option"
  a_prompt :: string
  a_action :: Action
  a_threat_score :: real
  a_threat_level :: ThreatLevel
  policy_matched :: "string option"
  a_processing_time_ms :: real
  a_sanitized :: bool
  a_detection_details :: "nat option"

section \<open>Characters and regular expressions (Python's \<open>str\<close> and \<open>re\<close>)\<close>

definition isspace :: "char \<Rightarrow> bool" where
  "isspace c \<longleftrightarrow> c \<in> {CHR 0x09, CHR 0x0A, CHR 0x0B, CHR 0x0C, CHR 0x0D,
      CHR 0x1C, CHR 0x1D, CHR 0x1E, CHR 0x1F, CHR 0x20, CHR 0x85, CHR 0xA0}"

definition isdigit :: "char \<Rightarrow> bool" where
  "isdigit c \<longleftrightarrow> c \<in> set ''0123456789''"

definition is_upper_az :: "char \<Rightarrow> bool" where
  "is_upper_az c \<longleftrightarrow> c \<in> set ''ABCDEFGHIJKLMNOPQRSTUVWXYZ''"

definition is_lower_az :: "char \<Rightarrow> bool" where
  "is_lower_az c \<longleftrightarrow> c \<in> set ''abcdefghijklmnopqrstuvwxyz''"

text \<open>\<open>\w\<close>: alphanumeric or underscore.\<close>

definition is_word :: "char \<Rightarrow> bool" where
  "is_word c \<longleftrightarrow> is_upper_az c \<or> is_lower_az c \<or> isdigit c \<or> c = CHR ''_'' \<or>
     (let n = (of_char c :: int) in
        n \<in> {170, 178, 179, 181, 185, 186, 188, 189, 190} \<or>
        (192 \<le> n \<and> n \<le> 214) \<or> (216 \<le> n \<and> n \<le> 246) \<or> 248 \<le> n)"

text \<open>\<open>str.lower()\<close>, one character at a time.\<close>

definition lower_char :: "char \<Rightarrow> char" where
  "lower_char c =
     (let n = (of_char c :: int) in
      if (65 \<le> n \<and> n \<le> 90) \<or> (192 \<le> n \<and> n \<le> 214) \<or> (216 \<le> n \<and> n \<le> 222)
      then char_of (n + 32) else c)"

definition lower :: "string \<Rightarrow> string" where
  "lower s = map lower_char s"

text \<open>
  The fragment of \<open>re\<close> syntax the sanitizer's patterns are written in: a single
  character (a literal or a class), a greedy bounded repetition \<open>x{lo,hi}\<close> of a single
  character (\<open>?\<close>, \<open>*\<close>, \<open>+\<close>, \<open>{n}\<close>, \<open>{n,}\<close>), concatenation, alternation, the empty
  pattern, \<open>\b\<close> and \<open>$\<close>.
\<close>

datatype item = Lit char | Cls "char \<Rightarrow> bool"

datatype rx =
    Eps
  | One item
  | Rep item nat "nat option"
  | Seq rx rx
  | Alt rx rx
  | WordB
  | Eos

text \<open>
  A position in the text: the character before it (none at the start) and the text
  from it on.
\<close>

type_synonym ctx = "char option \<times> string"

text \<open>
  With \<open>re.IGNORECASE\<close> (\<open>ic\<close>) a literal matches both cases of its letter. The classes
  of the patterns compiled with the flag (\<open>\s\<close> only) hold no letter, so the flag leaves
  them as they are.
\<close>

fun accepts :: "bool \<Rightarrow> item \<Rightarrow> char \<Rightarrow> bool" where
  "accepts ic (Lit x) c = (if ic then lower_char c = lower_char x else c = x)"
| "accepts ic (Cls f) c = f c"

fun below :: "nat option \<Rightarrow> nat \<Rightarrow> bool" where
  "below None k = True"
| "below (Some h) k = (k < h)"

text \<open>
  The backtracking matcher as a list of successes: every position where a match of the
  pattern started at the given position can end, in the order in which the backtracking
  engine tries them. A repetition is greedy: one more iteration is tried before
  stopping; an alternation tries its left branch first.
\<close>

fun reps :: "bool \<Rightarrow> item \<Rightarrow> nat \<Rightarrow> nat option \<Rightarrow> nat \<Rightarrow> char option \<Rightarrow> string \<Rightarrow> ctx list" where
  "reps ic i lo hi k p [] = (if lo \<le> k then [(p, [])] else [])"
| "reps ic i lo hi k p (c # cs) =
     (if accepts ic i c \<and> below hi k then reps ic i lo hi (Suc k) (Some c) cs else [])
     @ (if lo \<le> k then [(p, c # cs)] else [])"

fun word_at :: "char option \<Rightarrow> bool" where
  "word_at None = False"
| "word_at (Some c) = is_word c"

fun first_char :: "string \<Rightarrow> char option" where
  "first_char [] = None"
| "first_char (c # cs) = Some c"

fun ends :: "bool \<Rightarrow> rx \<Rightarrow> ctx \<Rightarrow> ctx list" where
  "ends ic Eps x = [x]"
| "ends ic (One i) (p, []) = []"
| "ends ic (One i) (p, c # cs) = (if accepts ic i c then [(Some c, cs)] else [])"
| "ends ic (Rep i lo hi) (p, s) = reps ic i lo hi 0 p s"
| "ends ic (Seq a b) x = concat (map (ends ic b) (ends ic a x))"
| "ends ic (Alt a b) x = ends ic a x @ ends ic b x"
| "ends ic WordB (p, s) = (if word_at p \<noteq> word_at (first_char s) then [(p, s)] else [])"
| "ends ic Eos (p, s) = (if s = [] \<or> s = [CHR 0x0A] then [(p, s)] else [])"

text \<open>\<open>re.search\<close>: is there a match starting anywhere in the text.\<close>

fun search_from :: "bool \<Rightarrow> rx \<Rightarrow> char option \<Rightarrow> string \<Rightarrow> bool" where
  "search_from ic r p [] = (ends ic r (p, []) \<noteq> [])"
| "search_from ic r p (c # cs) = (ends ic r (p, c # cs) \<noteq> [] \<or> search_from ic r (Some c) cs)"

definition re_search :: "bool \<Rightarrow> rx \<Rightarrow> string \<Rightarrow> bool" where
  "re_search ic r s = search_from ic r None s"

text \<open>
  \<open>re.sub\<close> with a replacement that holds no escape: scan from the left, replace the
  first match found at the leftmost position and go on after it. A match that consumed
  nothing is replaced and the scan moves one character on; no pattern of the
  sanitizer matches the empty text.
\<close>

function sub_from :: "bool \<Rightarrow> rx \<Rightarrow> string \<Rightarrow> char option \<Rightarrow> string \<Rightarrow> string" where
  "sub_from ic r rep p [] = (if ends ic r (p, []) \<noteq> [] then rep else [])"
| "sub_from ic r rep p (c # cs) =
     (case ends ic r (p, c # cs) of
        [] \<Rightarrow> c # sub_from ic r rep (Some c) cs
      | (q, rest) # _ \<Rightarrow>
          if length rest \<le> length cs
          then rep @ sub_from ic r rep q rest
          else rep @ c # sub_from ic r rep (Some c) cs)"
  by pat_completeness auto
termination
  by (relation "measure (\<lambda>(ic, r, rep, p, s). length s)") auto

definition re_sub :: "bool \<Rightarrow> rx \<Rightarrow> string \<Rightarrow> string \<Rightarrow> string" where
  "re_sub ic r rep s = sub_from ic r rep None s"

text \<open>The least number of characters a match of the pattern consumes.\<close>

fun min_len :: "rx \<Rightarrow> nat" where
  "min_len Eps = 0"
| "min_len (One i) = 1"
| "min_len (Rep i lo hi) = lo"
| "min_len (Seq a b) = min_len a + min_len b"
| "min_len (Alt a b) = min (min_len a) (min_len b)"
| "min_len WordB = 0"
| "min_len Eos = 0"

text \<open>\<open>str.strip()\<close>.\<close>

definition strip :: "string \<Rightarrow> string" where
  "strip s = rev (dropWhile isspace (rev (dropWhile isspace s)))"

section \<open>Sanitizer (firewall/sanitizer.py)\<close>

text \<open>Pattern notation: literal text, \<open>\s\<close>, \<open>\d\<close>, sequences, groups.\<close>

definition lits :: "string \<Rightarrow> rx" where
  "lits s = foldr (\<lambda>c r. Seq (One (Lit c)) r) s Eps"

definition seqs :: "rx list \<Rightarrow> rx" where
  "seqs rs = foldr Seq rs Eps"

fun alts :: "rx list \<Rightarrow> rx" where
  "alts [] = Eps"
| "alts [r] = r"
| "alts (r # rs) = Alt r (alts rs)"

definition opt :: "rx \<Rightarrow> rx" where
  "opt r = Alt r Eps"

definition sp1 :: rx where "sp1 = Rep (Cls isspace) 1 None"
definition sp0 :: rx where "sp0 = Rep (Cls isspace) 0 None"

definition digits :: "nat \<Rightarrow> rx" where
  "digits n = Rep (Cls isdigit) n (Some n)"

definition cls_in :: "string \<Rightarrow> item" where
  "cls_in s = Cls (\<lambda>c. c \<in> set s)"

definition alnum_az :: "char \<Rightarrow> bool" where
  "alnum_az c \<longleftrightarrow> is_upper_az c \<or> is_lower_az c \<or> isdigit c"

text \<open>
  A rule is a compiled pattern and its replacement. The source's change message is
  formatted from the family and the pattern; the model records the family and the
  position of the rule in its list.
\<close>

datatype change = Removed_instruction nat | Redacted_PII nat | Removed_SQL nat

definition instruction_patterns :: "(rx \<times> string) list" where
  "instruction_patterns = [
     (seqs [lits ''ignore'', sp1, opt (seqs [lits ''all'', sp1]),
            alts [lits ''previous'', lits ''prior'', lits ''above''], sp1,
            lits ''instruction'', Rep (Lit CHR ''s'') 0 (Some 1)], ''[INSTRUCTION_REMOVED]''),
     (seqs [lits ''disregard'', sp1, opt (seqs [lits ''all'', sp1]),
            alts [lits ''previous'', lits ''prior'', lits ''above'']], ''[INSTRUCTION_REMOVED]''),
     (seqs [lits ''forget'', sp1, alts [lits ''everything'', lits ''all'', lits ''what'']],
        ''[INSTRUCTION_REMOVED]''),
     (seqs [lits ''new'', sp1, lits ''instruction'', Rep (Lit CHR ''s'') 0 (Some 1), lits '':''],
        ''[INSTRUCTION_REMOVED]''),
     (seqs [lits ''system'', sp1, lits ''prompt:''], ''[SYSTEM_REMOVED]''),
     (seqs [lits ''you'', sp1, lits ''are'', sp1, lits ''now'', sp1], ''[ROLE_REMOVED] ''),
     (seqs [lits ''roleplay'', sp1, lits ''as''], ''[ROLEPLAY_REMOVED]''),
     (seqs [lits ''pretend'', sp1,
            alts [seqs [lits ''you'', sp1, lits ''are''], seqs [lits ''to'', sp1, lits ''be'']]],
        ''[PRETEND_REMOVED]''),
     (seqs [lits ''DAN'', sp1, lits ''mode''], ''[MODE_REMOVED]''),
     (seqs [lits ''developer'', sp1, lits ''mode''], ''[MODE_REMOVED]'')]"

definition sep_ws_dash :: rx where
  "sep_ws_dash = Rep (Cls (\<lambda>c. isspace c \<or> c = CHR ''-'')) 0 (Some 1)"

definition sep_dash_dot :: rx where
  "sep_dash_dot = Rep (cls_in ''-.'') 0 (Some 1)"

definition pii_patterns :: "(rx \<times> string) list" where
  "pii_patterns = [
     (seqs [WordB, digits 3, lits ''-'', digits 2, lits ''-'', digits 4, WordB], ''[SSN_REDACTED]''),
     (seqs [WordB, digits 9, WordB], ''[SSN_REDACTED]''),
     (seqs [WordB, digits 4, sep_ws_dash, digits 4, sep_ws_dash, digits 4, sep_ws_dash,
            digits 4, WordB], ''[CARD_REDACTED]''),
     (seqs [WordB, Rep (Cls (\<lambda>c. alnum_az c \<or> c \<in> set ''._%+-'')) 1 None, lits ''@'',
            Rep (Cls (\<lambda>c. alnum_az c \<or> c \<in> set ''.-'')) 1 None, lits ''.'',
            Rep (Cls (\<lambda>c. is_upper_az c \<or> c = CHR ''|'' \<or> is_lower_az c)) 2 None, WordB],
        ''[EMAIL_REDACTED]''),
     (seqs [WordB, digits 3, sep_dash_dot, digits 3, sep_dash_dot, digits 4, WordB],
        ''[PHONE_REDACTED]''),
     (seqs [lits ''('', digits 3, lits '')'', sp0, digits 3, sep_dash_dot, digits 4],
        ''[PHONE_REDACTED]''),
     (seqs [lits ''sk-'', Rep (Cls alnum_az) 32 None], ''[API_KEY_REDACTED]''),
     (Rep (Cls (\<lambda>c. alnum_az c \<or> c \<in> set ''_-'')) 32 None, ''[TOKEN_REDACTED]'')]"

definition sql_patterns :: "(rx \<times> string) list" where
  "sql_patterns = [
     (seqs [One (Lit CHR 0x27), Rep (Lit CHR '';'') 0 (Some 1), sp0,
            alts [lits ''DROP'', lits ''DELETE'', lits ''INSERT'', lits ''UPDATE'', lits ''SELECT''],
            sp1], ''[SQL_REMOVED] ''),
     (seqs [alts [lits ''OR'', lits ''AND''], sp1, lits ''1'', sp0, lits ''='', sp0, lits ''1''],
        ''[SQL_REMOVED]''),
     (seqs [lits ''--'', sp0, Eos], [])]"

text \<open>
  One family: the loop over its rules. \<open>i\<close> counts the rules already tried; a rule
  that is found in the text rewrites it and appends one change.
\<close>

fun run_family :: "bool \<Rightarrow> (nat \<Rightarrow> change) \<Rightarrow> nat \<Rightarrow> (rx \<times> string) list
    \<Rightarrow> string \<times> change list \<Rightarrow> string \<times> change list" where
  "run_family ic mk i [] st = st"
| "run_family ic mk i ((pattern, replacement) # rules) (sanitized, changes) =
     (if re_search ic pattern sanitized
      then run_family ic mk (Suc i) rules
             (re_sub ic pattern replacement sanitized, changes @ [mk i])
      else run_family ic mk (Suc i) rules (sanitized, changes))"

text \<open>The closing step: \<open>re.sub(r'\s+', ' ', sanitized).strip()\<close>.\<close>

definition cleanup :: "string \<Rightarrow> string" where
  "cleanup s = strip (re_sub False sp1 '' '' s)"

text \<open>The three families in order, the last two under their switches.\<close>

definition rewrite :: "string \<Rightarrow> bool \<Rightarrow> bool \<Rightarrow> string \<times> change list" where
  "rewrite text remove_pii remove_sql =
     (let st0 = (text, []);
          st1 = run_family True Removed_instruction 0 instruction_patterns st0;
          st2 = (if remove_pii then run_family False Redacted_PII 0 pii_patterns st1 else st1);
          st3 = (if remove_sql then run_family True Removed_SQL 0 sql_patterns st2 else st2)
      in st3)"

definition sanitize :: "string \<Rightarrow> bool \<Rightarrow> bool \<Rightarrow> string \<times> change list" where
  "sanitize text remove_pii remove_sql =
     (case rewrite text remove_pii remove_sql of
        (rewritten, changes) \<Rightarrow> (cleanup rewritten, changes))"

section \<open>Threat detector (firewall/detector.py)\<close>

definition malicious_patterns :: "string list" where
  "malicious_patterns = [
     ''ignore previous instructions'',
     ''ignore all previous'',
     ''disregard'',
     ''forget everything'',
     ''new instructions'',
     ''system prompt'',
     ''you are now'',
     ''roleplay as'',
     ''jailbreak'',
     ''DAN mode'',
     ''developer mode'']"

text \<open>Python's \<open>pattern in text\<close> on strings: the pattern is a contiguous part of the text.\<close>

fun starts_with :: "string \<Rightarrow> string \<Rightarrow> bool" where
  "starts_with s [] = True"
| "starts_with [] (x # xs) = False"
| "starts_with (c # cs) (x # xs) = (c = x \<and> starts_with cs xs)"

fun is_in :: "string \<Rightarrow> string \<Rightarrow> bool" where
  "is_in pat [] = (pat = [])"
| "is_in pat (c # cs) = (starts_with (c # cs) pat \<or> is_in pat cs)"

text \<open>The tier chain of \<open>_detect_with_patterns\<close>.\<close>

definition level_of_score :: "real \<Rightarrow> ThreatLevel" where
  "level_of_score score =
     (if score \<ge> 80 then CRITICAL
      else if score \<ge> 60 then HIGH
      else if score \<ge> 40 then MEDIUM
      else if score \<ge> 20 then LOW
      else SAFE)"

definition pattern_matches :: "string \<Rightarrow> nat" where
  "pattern_matches prompt_lower = length (filter (\<lambda>pat. is_in pat prompt_lower) malicious_patterns)"

definition pattern_categories :: "string \<Rightarrow> string list" where
  "pattern_categories prompt_lower =
     (if is_in ''ignore'' prompt_lower \<or> is_in ''disregard'' prompt_lower
      then [''prompt_injection''] else [])
     @ (if is_in ''roleplay'' prompt_lower \<or> is_in ''you are now'' prompt_lower
        then [''jailbreak''] else [])
     @ (if is_in ''system'' prompt_lower then [''system_manipulation''] else [])"

definition detect_with_patterns :: "string \<Rightarrow> DetectionResult" where
  "detect_with_patterns text =
     (let prompt_lower = lower text;
          matches = pattern_matches prompt_lower;
          score = min (matches * 20) 100
      in \<lparr> threat_score = real score,
           threat_level = level_of_score (real score),
           is_malicious = (score \<ge> 40),
           categories = pattern_categories prompt_lower,
           confidence = 0.7,
           details = Some matches \<rparr>)"

text \<open>
  The external strategy: what \<open>shield.detect\<close> returned, or nothing when it raised.
  Its score is on the scale 0..1.
\<close>

record shield_result =
  s_threat_score :: real
  s_categories :: "string list"
  s_confidence :: real

definition detect_with_shield :: "shield_result option \<Rightarrow> string \<Rightarrow> real \<Rightarrow> DetectionResult" where
  "detect_with_shield result text thr =
     (case result of
        None \<Rightarrow> detect_with_patterns text
      | Some res \<Rightarrow>
          (let score = s_threat_score res
           in \<lparr> threat_score = score * 100,
                threat_level =
                  (if score \<ge> 0.9 then CRITICAL
                   else if score \<ge> 0.7 then HIGH
                   else if score \<ge> 0.5 then MEDIUM
                   else if score \<ge> 0.3 then LOW
                   else SAFE),
                is_malicious = (score \<ge> thr),
                categories = s_categories res,
                confidence = s_confidence res,
                details = None \<rparr>))"

text \<open>
  A detector is the external strategy when one is in use (a function from the text to
  its outcome), or nothing.
\<close>

type_synonym ThreatDetector = "(string \<Rightarrow> shield_result option) option"

definition detect :: "ThreatDetector \<Rightarrow> string \<Rightarrow> real \<Rightarrow> DetectionResult" where
  "detect shield text thr =
     (case shield of
        Some f \<Rightarrow> detect_with_shield (f text) text thr
      | None \<Rightarrow> detect_with_patterns text)"

section \<open>Policy engine (firewall/policy.py)\<close>

text \<open>
  A rule. \<open>conditions\<close> holds the list under the key \<open>categories\<close>, or nothing when the
  key is absent.
\<close>

record Policy =
  name :: string
  enabled :: bool
  action :: Action
  severity :: ThreatLevel
  threshold :: real
  description :: string
  conditions :: "string list option"

fun severity_order :: "ThreatLevel \<Rightarrow> nat" where
  "severity_order SAFE = 0"
| "severity_order LOW = 1"
| "severity_order MEDIUM = 2"
| "severity_order HIGH = 3"
| "severity_order CRITICAL = 4"

definition matches :: "Policy \<Rightarrow> DetectionResult \<Rightarrow> bool" where
  "matches p d =
     (if \<not> enabled p then False
      else if threat_score d / 100 < threshold p then False
      else if severity_order (threat_level d) < severity_order (severity p) then False
      else (case conditions p of
              Some required_cats \<Rightarrow>
                (if \<not> list_ex (\<lambda>cat. cat \<in> set (categories d)) required_cats then False
                 else True)
            | None \<Rightarrow> True))"

definition to_match :: "Policy \<Rightarrow> DetectionResult \<Rightarrow> PolicyMatch" where
  "to_match p d =
     \<lparr> policy_name = name p,
       pm_action = action p,
       pm_severity = severity p,
       reason = (if description p \<noteq> [] then description p else ''Matched policy: '' @ name p),
       metadata = Some (threshold p, threat_score d) \<rparr>"

definition default_allow :: PolicyMatch where
  "default_allow =
     \<lparr> policy_name = ''default_allow'',
       pm_action = ALLOW,
       pm_severity = SAFE,
       reason = ''No policy matched - default allow'',
       metadata = None \<rparr>"

fun evaluate :: "Policy list \<Rightarrow> DetectionResult \<Rightarrow> PolicyMatch" where
  "evaluate [] d = default_allow"
| "evaluate (p # ps) d = (if matches p d then to_match p d else evaluate ps d)"

text \<open>
  A rule as the configuration document gives it: any field may be missing, and the
  action and the severity are still text.
\<close>

record raw_policy =
  raw_name :: "string option"
  raw_enabled :: "bool option"
  raw_action :: "string option"
  raw_severity :: "string option"
  raw_threshold :: "real option"
  raw_description :: "string option"
  raw_conditions :: "string list option option"

datatype load_error = Source_error | Entry_error | Value_error

fun Action_of :: "string \<Rightarrow> load_error + Action" where
  "Action_of s =
     (if s = ''allow'' then Inr ALLOW
      else if s = ''block'' then Inr BLOCK
      else if s = ''sanitize'' then Inr SANITIZE
      else if s = ''log'' then Inr LOG
      else if s = ''alert'' then Inr ALERT
      else Inl Value_error)"

fun ThreatLevel_of :: "string \<Rightarrow> load_error + ThreatLevel" where
  "ThreatLevel_of s =
     (if s = ''safe'' then Inr SAFE
      else if s = ''low'' then Inr LOW
      else if s = ''medium'' then Inr MEDIUM
      else if s = ''high'' then Inr HIGH
      else if s = ''critical'' then Inr CRITICAL
      else Inl Value_error)"

fun get_or :: "'a option \<Rightarrow> 'a \<Rightarrow> 'a" where
  "get_or None dflt = dflt"
| "get_or (Some v) dflt = v"

text \<open>\<open>Policy.__init__\<close>: the enum constructors raise on a value that is no member.\<close>

definition Policy_init :: "raw_policy \<Rightarrow> load_error + Policy" where
  "Policy_init config =
     (case Action_of (get_or (raw_action config) ''log'') of
        Inl e \<Rightarrow> Inl e
      | Inr a \<Rightarrow>
          (case ThreatLevel_of (get_or (raw_severity config) ''medium'') of
             Inl e \<Rightarrow> Inl e
           | Inr sev \<Rightarrow>
               Inr \<lparr> name = get_or (raw_name config) ''unnamed'',
                     enabled = get_or (raw_enabled config) True,
                     action = a,
                     severity = sev,
                     threshold = get_or (raw_threshold config) 0.5,
                     description = get_or (raw_description config) [],
                     conditions = get_or (raw_conditions config) None \<rparr>))"

text \<open>
  The rule source: \<open>Unreadable\<close> when opening or parsing the file raises or the
  document has no list of rules to iterate; else the entries of its \<open>policies\<close> list
  (none when the key is absent), each a mapping or something else.
\<close>

datatype yaml_entry = Not_a_mapping | Mapping_entry raw_policy

datatype policy_source = Unreadable | Document "yaml_entry list"

record PolicyEngine =
  policies :: "Policy list"

definition default_policies :: "raw_policy list" where
  "default_policies = [
     \<lparr> raw_name = Some ''block_critical_threats'', raw_enabled = Some True,
       raw_action = Some ''block'', raw_severity = Some ''critical'',
       raw_threshold = Some 0.85,
       raw_description = Some ''Block critical threats immediately'', raw_conditions = None \<rparr>,
     \<lparr> raw_name = Some ''sanitize_high_threats'', raw_enabled = Some True,
       raw_action = Some ''sanitize'', raw_severity = Some ''high'',
       raw_threshold = Some 0.65,
       raw_description = Some ''Sanitize high-severity prompts'', raw_conditions = None \<rparr>,
     \<lparr> raw_name = Some ''log_medium_threats'', raw_enabled = Some True,
       raw_action = Some ''log'', raw_severity = Some ''medium'',
       raw_threshold = Some 0.40,
       raw_description = Some ''Log medium-severity prompts'', raw_conditions = None \<rparr>,
     \<lparr> raw_name = Some ''allow_safe_prompts'', raw_enabled = Some True,
       raw_action = Some ''allow'', raw_severity = Some ''safe'',
       raw_threshold = Some 0.0,
       raw_description = Some ''Allow safe prompts'', raw_conditions = None \<rparr>]"

text \<open>
  The loop of \<open>load_policies\<close> over the entries, appending to the engine's list; it
  stops at the first entry that raises, with the list as far as it got.
\<close>

fun load_loop :: "yaml_entry list \<Rightarrow> PolicyEngine \<Rightarrow> PolicyEngine \<times> load_error option" where
  "load_loop [] eng = (eng, None)"
| "load_loop (Not_a_mapping # es) eng = (eng, Some Entry_error)"
| "load_loop (Mapping_entry config # es) eng =
     (case Policy_init config of
        Inl e \<Rightarrow> (eng, Some e)
      | Inr p \<Rightarrow> load_loop es (eng\<lparr>policies := policies eng @ [p]\<rparr>))"

text \<open>\<open>_load_default_policies\<close>; the built-in configurations all construct.\<close>

definition load_default_policies :: "PolicyEngine \<Rightarrow> PolicyEngine" where
  "load_default_policies eng =
     eng\<lparr>policies := concat (map (\<lambda>config. case Policy_init config of Inl e \<Rightarrow> [] | Inr p \<Rightarrow> [p])
                                 default_policies)\<rparr>"

text \<open>The \<open>try\<close> block of \<open>load_policies\<close>: the engine it leaves and the exception, if any.\<close>

definition try_load :: "policy_source \<Rightarrow> PolicyEngine \<Rightarrow> PolicyEngine \<times> load_error option" where
  "try_load src eng =
     (case src of
        Unreadable \<Rightarrow> (eng, Some Source_error)
      | Document es \<Rightarrow> load_loop es (eng\<lparr>policies := []\<rparr>))"

definition load_policies :: "policy_source \<Rightarrow> PolicyEngine \<Rightarrow> PolicyEngine" where
  "load_policies src eng =
     (case try_load src eng of
        (eng', None) \<Rightarrow> eng'
      | (eng', Some e) \<Rightarrow> load_default_policies eng')"

text \<open>\<open>PolicyEngine.__init__\<close>.\<close>

definition PolicyEngine_init :: "policy_source option \<Rightarrow> PolicyEngine" where
  "PolicyEngine_init config_path =
     (case config_path of
        Some src \<Rightarrow> load_policies src \<lparr>policies = []\<rparr>
      | None \<Rightarrow> load_default_policies \<lparr>policies = []\<rparr>)"

definition add_policy :: "raw_policy \<Rightarrow> PolicyEngine \<Rightarrow> load_error + PolicyEngine" where
  "add_policy config eng =
     (case Policy_init config of
        Inl e \<Rightarrow> Inl e
      | Inr p \<Rightarrow> Inr (eng\<lparr>policies := policies eng @ [p]\<rparr>))"

definition remove_policy :: "string \<Rightarrow> PolicyEngine \<Rightarrow> bool \<times> PolicyEngine" where
  "remove_policy nm eng =
     (let kept = filter (\<lambda>p. name p \<noteq> nm) (policies eng)
      in (length kept < length (policies eng), eng\<lparr>policies := kept\<rparr>))"

section \<open>Audit logger (firewall/logger.py)\<close>

record stats =
  total_requests :: nat
  blocked :: nat
  sanitized :: nat
  s_allowed :: nat
  threats_detected :: nat

text \<open>
  The logger: its switch, the lines of \<open>audit.jsonl\<close> and \<open>threats.jsonl\<close> (a threat
  line is the entry with the detection's categories and confidence), and the counters.
\<close>

record AuditLogger =
  log_to_file :: bool
  audit_lines :: "AuditLog list"
  threat_lines :: "(AuditLog \<times> string list \<times> real) list"
  stats :: stats

definition zero_stats :: stats where
  "zero_stats = \<lparr> total_requests = 0, blocked = 0, sanitized = 0, s_allowed = 0,
                   threats_detected = 0 \<rparr>"

definition AuditLogger_init :: "bool \<Rightarrow> AuditLogger" where
  "AuditLogger_init to_file =
     \<lparr> log_to_file = to_file, audit_lines = [], threat_lines = [], stats = zero_stats \<rparr>"

text \<open>
  What one call takes from outside: the fresh identifier, the clock, and whether each
  of its two appends to a file goes through (\<open>_write_log\<close> swallows a failure).
\<close>

record env =
  new_id :: string
  now :: nat
  audit_write_ok :: bool
  threats_write_ok :: bool

definition write_log :: "bool \<Rightarrow> 'a list \<Rightarrow> 'a \<Rightarrow> 'a list" where
  "write_log ok lines entry = (if ok then lines @ [entry] else lines)"

definition is_threat :: "ThreatLevel \<Rightarrow> bool" where
  "is_threat lv \<longleftrightarrow> lv \<in> set [HIGH, CRITICAL]"

definition log_entry_of :: "env \<Rightarrow> FirewallRequest \<Rightarrow> FirewallResponse \<Rightarrow> AuditLog" where
  "log_entry_of e request response =
     \<lparr> request_id = new_id e,
       a_timestamp = now e,
       a_user_id = user_id request,
       a_session_id = session_id request,
       a_prompt = prompt request,
       a_action = r_action response,
       a_threat_score = r_threat_score response,
       a_threat_level = r_threat_level response,
       policy_matched = (case policy_match response of Some m \<Rightarrow> Some (policy_name m) | None \<Rightarrow> None),
       a_processing_time_ms = processing_time_ms response,
       a_sanitized = (sanitized_prompt response \<noteq> None),
       a_detection_details = (case detection response of Some d \<Rightarrow> details d | None \<Rightarrow> None) \<rparr>"

definition update_stats :: "FirewallResponse \<Rightarrow> stats \<Rightarrow> stats" where
  "update_stats response st =
     (let st1 = st\<lparr>total_requests := total_requests st + 1\<rparr>;
          st2 = (if r_action response = BLOCK then st1\<lparr>blocked := blocked st1 + 1\<rparr>
                 else if r_action response = SANITIZE then st1\<lparr>sanitized := sanitized st1 + 1\<rparr>
                 else if r_action response = ALLOW then st1\<lparr>s_allowed := s_allowed st1 + 1\<rparr>
                 else st1)
      in if is_threat (r_threat_level response)
         then st2\<lparr>threats_detected := threats_detected st2 + 1\<rparr>
         else st2)"

definition log_request :: "env \<Rightarrow> FirewallRequest \<Rightarrow> FirewallResponse \<Rightarrow> AuditLogger
    \<Rightarrow> string \<times> AuditLogger" where
  "log_request e request response lg =
     (let log_entry = log_entry_of e request response;
          lg1 = (if log_to_file lg
                 then lg\<lparr>audit_lines := write_log (audit_write_ok e) (audit_lines lg) log_entry\<rparr>
                 else lg);
          lg2 = (if log_to_file lg \<and> is_threat (r_threat_level response)
                 then lg1\<lparr>threat_lines := write_log (threats_write_ok e) (threat_lines lg1)
                        (log_entry,
                         case detection response of Some d \<Rightarrow> categories d | None \<Rightarrow> [],
                         case detection response of Some d \<Rightarrow> confidence d | None \<Rightarrow> 0)\<rparr>
                 else lg1)
      in (new_id e, lg2\<lparr>stats := update_stats response (stats lg2)\<rparr>))"

text \<open>\<open>get_stats\<close>: the counters and the three rates.\<close>

record stats_report =
  counters :: stats
  block_rate :: real
  sanitize_rate :: real
  threat_rate :: real

definition get_stats :: "AuditLogger \<Rightarrow> stats_report" where
  "get_stats lg =
     (let total = total_requests (stats lg)
      in \<lparr> counters = stats lg,
           block_rate = (if total > 0 then real (blocked (stats lg)) / real total * 100 else 0),
           sanitize_rate = (if total > 0 then real (sanitized (stats lg)) / real total * 100 else 0),
           threat_rate =
             (if total > 0 then real (threats_detected (stats lg)) / real total * 100 else 0) \<rparr>)"

definition clear_logs :: "AuditLogger \<Rightarrow> AuditLogger" where
  "clear_logs lg =
     (let lg1 = (if log_to_file lg then lg\<lparr>audit_lines := [], threat_lines := []\<rparr> else lg)
      in lg1\<lparr>stats := zero_stats\<rparr>)"

text \<open>A history of the ledger: calls of \<open>log_request\<close> and \<open>clear_logs\<close>, oldest first.\<close>

datatype ledger_op = Record env FirewallRequest FirewallResponse | Clear

fun run_ops :: "ledger_op list \<Rightarrow> AuditLogger \<Rightarrow> AuditLogger" where
  "run_ops [] lg = lg"
| "run_ops (Record e request response # ops) lg = run_ops ops (snd (log_request e request response lg))"
| "run_ops (Clear # ops) lg = run_ops ops (clear_logs lg)"

text \<open>The ledger's invariant on its counters.\<close>

definition counters_ok :: "stats \<Rightarrow> bool" where
  "counters_ok st \<longleftrightarrow> blocked st + sanitized st + s_allowed st \<le> total_requests st"

section \<open>Core engine (firewall/core.py)\<close>

text \<open>Decimal text of a number, for the message of a sanitized response.\<close>

fun str_nat :: "nat \<Rightarrow> string" where
  "str_nat n = (if n < 10 then [''0123456789'' ! n]
                else str_nat (n div 10) @ [''0123456789'' ! (n mod 10)])"

definition execute_action :: "FirewallRequest \<Rightarrow> DetectionResult \<Rightarrow> PolicyMatch \<Rightarrow> FirewallResponse" where
  "execute_action request det pm =
     (if pm_action pm = BLOCK then
        \<lparr> r_action = BLOCK, allowed = False, original_prompt = prompt request,
          sanitized_prompt = None, r_threat_score = threat_score det,
          r_threat_level = threat_level det, detection = Some det, policy_match = Some pm,
          message = ''Request blocked due to security policy'', processing_time_ms = 0 \<rparr>
      else if pm_action pm = SANITIZE then
        (case sanitize (prompt request) True True of
           (clean, changes) \<Rightarrow>
             \<lparr> r_action = SANITIZE, allowed = True, original_prompt = prompt request,
               sanitized_prompt = Some clean, r_threat_score = threat_score det,
               r_threat_level = threat_level det, detection = Some det, policy_match = Some pm,
               message = ''Prompt sanitized: '' @ str_nat (length changes) @ '' changes made'',
               processing_time_ms = 0 \<rparr>)
      else
        \<lparr> r_action = ALLOW, allowed = True, original_prompt = prompt request,
          sanitized_prompt = None, r_threat_score = threat_score det,
          r_threat_level = threat_level det, detection = Some det, policy_match = Some pm,
          message = ''Request allowed'', processing_time_ms = 0 \<rparr>)"

text \<open>
  The firewall holds its three stateful parts; \<open>check\<close> returns the response and the
  firewall with the request logged. \<open>elapsed\<close> is the time the clock measured.
\<close>

record PromptFirewall =
  detector :: ThreatDetector
  policy_engine :: PolicyEngine
  logger :: AuditLogger

definition check :: "env \<Rightarrow> real \<Rightarrow> PromptFirewall \<Rightarrow> string \<Rightarrow> string option \<Rightarrow> string option
    \<Rightarrow> FirewallResponse \<times> PromptFirewall" where
  "check e elapsed fw text uid sid =
     (let request = \<lparr> prompt = text, user_id = uid, session_id = sid \<rparr>;
          det = detect (detector fw) text 0.5;
          pm = evaluate (policies (policy_engine fw)) det;
          response = (execute_action request det pm)\<lparr>processing_time_ms := elapsed\<rparr>;
          (rid, lg) = log_request e request response (logger fw)
      in (response, fw\<lparr>logger := lg\<rparr>))"

definition create_firewall :: "policy_source option \<Rightarrow> ThreatDetector \<Rightarrow> bool \<Rightarrow> PromptFirewall" where
  "create_firewall policy_config shield enable_logging =
     \<lparr> detector = shield,
       policy_engine = PolicyEngine_init policy_config,
       logger = AuditLogger_init enable_logging \<rparr>"

section \<open>The specification's wording, for comparison\<close>

text \<open>
  Whitespace as the specification describes the sanitizer's result: every maximal run
  of whitespace replaced by one space.
\<close>

function collapse_runs :: "string \<Rightarrow> string" where
  "collapse_runs [] = []"
| "collapse_runs (c # cs) =
     (if isspace c then CHR '' '' # collapse_runs (dropWhile isspace cs)
      else c # collapse_runs cs)"
  by pat_completeness auto
termination
  by (relation "measure length") (auto simp: le_imp_less_Suc length_dropWhile_le)

text \<open>Every whitespace character is a space and the next character is not whitespace.\<close>

fun single_spaced :: "string \<Rightarrow> bool" where
  "single_spaced [] = True"
| "single_spaced [c] = (isspace c \<longrightarrow> c = CHR '' '')"
| "single_spaced (c # d # cs) =
     ((isspace c \<longrightarrow> c = CHR '' '' \<and> \<not> isspace d) \<and> single_spaced (d # cs))"

text \<open>
  The classifier's score as the specification words it: the occurrences of the listed
  phrases in the lower-cased text are counted, each occurrence weighs 20, and the
  product is clamped to 100.
\<close>

fun occurrences :: "string \<Rightarrow> string \<Rightarrow> nat" where
  "occurrences pat [] = 0"
| "occurrences pat (c # cs) = (if starts_with (c # cs) pat then 1 else 0) + occurrences pat cs"

definition occurrence_score :: "string \<Rightarrow> nat" where
  "occurrence_score text =
     min (sum_list (map (\<lambda>pat. occurrences pat (lower text)) malicious_patterns) * 20) 100"

section \<open>Example inputs\<close>

definition env0 :: env where
  "env0 = \<lparr> new_id = ''id-0'', now = 0, audit_write_ok = True, threats_write_ok = True \<rparr>"

definition sanitize_all :: Policy where
  "sanitize_all =
     \<lparr> name = ''sanitize_all'', enabled = True, action = SANITIZE, severity = SAFE,
       threshold = 0, description = ''Sanitize every prompt'', conditions = None \<rparr>"

definition block_all :: Policy where
  "block_all =
     \<lparr> name = ''block_all'', enabled = True, action = BLOCK, severity = SAFE,
       threshold = 0, description = ''Block every prompt'', conditions = None \<rparr>"

definition alert_critical :: Policy where
  "alert_critical =
     \<lparr> name = ''alert_critical'', enabled = True, action = ALERT, severity = CRITICAL,
       threshold = 0.9, description = [], conditions = Some [''jailbreak''] \<rparr>"

definition safe_detection :: DetectionResult where
  "safe_detection =
     \<lparr> threat_score = 0, threat_level = SAFE, is_malicious = False, categories = [],
       confidence = 0.7, details = Some 0 \<rparr>"

definition request0 :: FirewallRequest where
  "request0 = \<lparr> prompt = ''status report'', user_id = None, session_id = None \<rparr>"

text \<open>A response whose action is \<open>log\<close>, as the response type admits.\<close>

definition log_response :: FirewallResponse where
  "log_response =
     \<lparr> r_action = LOG, allowed = True, original_prompt = ''status report'',
       sanitized_prompt = None, r_threat_score = 0, r_threat_level = SAFE,
       detection = Some safe_detection, policy_match = None, message = ''Request allowed'',
       processing_time_ms = 1 \<rparr>"

text \<open>A rule of a configuration document whose action is no member of \<open>Action\<close>.\<close>

definition bad_action_entry :: yaml_entry where
  "bad_action_entry =
     Mapping_entry \<lparr> raw_name = Some ''quarantine_all'', raw_enabled = None,
       raw_action = Some ''quarantine'', raw_severity = None, raw_threshold = None,
       raw_description = None, raw_conditions = None \<rparr>"

definition good_entry :: yaml_entry where
  "good_entry =
     Mapping_entry \<lparr> raw_name = Some ''block_all'', raw_enabled = None,
       raw_action = Some ''block'', raw_severity = Some ''safe'', raw_threshold = Some 0,
       raw_description = Some ''Block every prompt'', raw_conditions = None \<rparr>"

section \<open>No pattern of the sanitizer matches the empty text\<close>

text \<open>
  So the branch of \<open>sub_from\<close> for a match that consumed nothing is never taken on
  the sanitizer's rules.
\<close>

lemma reps_consumes:
  "(q, rest) \<in> set (reps ic i lo hi k p s) \<Longrightarrow> length rest + lo \<le> length s + k"
  by (induction s arbitrary: k p) (fastforce split: if_splits)+

lemma ends_consumes:
  "(q, rest) \<in> set (ends ic r (p, s)) \<Longrightarrow> length rest + min_len r \<le> length s"
proof (induction r arbitrary: p s q rest)
  case Eps
  then show ?case by simp
next
  case (One i)
  then show ?case by (cases s) (auto split: if_splits)
next
  case (Rep i lo hi)
  then show ?case using reps_consumes [of q rest ic i lo hi 0 p s] by simp
next
  case (Seq a b)
  from Seq.prems obtain p' s' where
    1: "(p', s') \<in> set (ends ic a (p, s))" and 2: "(q, rest) \<in> set (ends ic b (p', s'))"
    by auto
  from Seq.IH(1) [OF 1] Seq.IH(2) [OF 2] show ?case by simp
next
  case (Alt a b)
  then show ?case by fastforce
next
  case WordB
  then show ?case by (auto split: if_splits)
next
  case Eos
  then show ?case by (auto split: if_splits)
qed

lemma patterns_consume:
  "list_all (\<lambda>(r, rep). 0 < min_len r) (instruction_patterns @ pii_patterns @ sql_patterns)"
  by code_simp

lemma no_empty_match:
  assumes "(r, rep) \<in> set (instruction_patterns @ pii_patterns @ sql_patterns)"
    and "ends ic r (p, c # cs) = (q, rest) # others"
  shows "length rest \<le> length cs"
proof -
  from assms(1) patterns_consume have "0 < min_len r"
    unfolding list_all_iff by blast
  moreover from assms(2) have "(q, rest) \<in> set (ends ic r (p, c # cs))" by simp
  from ends_consumes [OF this] have "length rest + min_len r \<le> Suc (length cs)" by simp
  ultimately show ?thesis by simp
qed

section \<open>The closing whitespace step\<close>

lemma reps_sp_hd:
  "1 \<le> k \<Longrightarrow> \<exists>q rest. reps False (Cls isspace) 1 None k p s = (q, dropWhile isspace s) # rest"
proof (induction s arbitrary: k p)
  case Nil
  then show ?case by simp
next
  case (Cons c cs)
  show ?case
  proof (cases "isspace c")
    case True
    from Cons.IH [of "Suc k" "Some c"] obtain q rest where
      "reps False (Cls isspace) 1 None (Suc k) (Some c) cs = (q, dropWhile isspace cs) # rest"
      by auto
    with True Cons.prems show ?thesis by simp
  next
    case False
    with Cons.prems show ?thesis by simp
  qed
qed

lemma ends_sp1_space:
  assumes "isspace c"
  shows "\<exists>q rest. ends False sp1 (p, c # cs) = (q, dropWhile isspace cs) # rest"
proof -
  from reps_sp_hd [of "Suc 0" "Some c" cs] obtain q rest where
    "reps False (Cls isspace) 1 None (Suc 0) (Some c) cs = (q, dropWhile isspace cs) # rest"
    by auto
  with assms show ?thesis by (simp add: sp1_def)
qed

lemma ends_sp1_other: "\<not> isspace c \<Longrightarrow> ends False sp1 (p, c # cs) = []"
  by (simp add: sp1_def)

lemma ends_sp1_Nil: "ends False sp1 (p, []) = []"
  by (simp add: sp1_def)

lemma sub_from_sp1: "sub_from False sp1 '' '' p s = collapse_runs s"
proof (induction s arbitrary: p rule: collapse_runs.induct)
  case 1
  show ?case by (simp add: ends_sp1_Nil)
next
  case (2 c cs)
  show ?case
  proof (cases "isspace c")
    case True
    from ends_sp1_space [OF True, of p cs] obtain q rest where
      e: "ends False sp1 (p, c # cs) = (q, dropWhile isspace cs) # rest" by auto
    have "length (dropWhile isspace cs) \<le> length cs" by (rule length_dropWhile_le)
    with e True "2.IH"(1) [OF True, of q] show ?thesis by simp
  next
    case False
    with "2.IH"(2) [OF False, of "Some c"] show ?thesis
      by (simp add: ends_sp1_other)
  qed
qed

lemma cleanup_eq: "cleanup s = strip (collapse_runs s)"
  by (simp add: cleanup_def re_sub_def sub_from_sp1)

lemma collapse_hd: "s \<noteq> [] \<Longrightarrow> \<not> isspace (hd s) \<Longrightarrow> collapse_runs s \<noteq> [] \<and> hd (collapse_runs s) = hd s"
  by (cases s) auto

lemma dropWhile_hd: "dropWhile P s \<noteq> [] \<Longrightarrow> \<not> P (hd (dropWhile P s))"
  by (simp add: hd_dropWhile)

lemma single_spaced_collapse: "single_spaced (collapse_runs s)"
proof (induction s rule: collapse_runs.induct)
  case 1
  show ?case by simp
next
  case (2 c cs)
  show ?case
  proof (cases "isspace c")
    case True
    let ?r = "dropWhile isspace cs"
    have ih: "single_spaced (collapse_runs ?r)" using "2.IH"(1) [OF True] .
    show ?thesis
    proof (cases "collapse_runs ?r")
      case Nil
      with True show ?thesis by (simp add: isspace_def)
    next
      case (Cons d ds)
      then have "collapse_runs ?r \<noteq> []" by simp
      then have "?r \<noteq> []" by (metis collapse_runs.simps(1))
      then have "\<not> isspace (hd ?r)" by (rule dropWhile_hd)
      with \<open>?r \<noteq> []\<close> collapse_hd [of ?r] Cons have "\<not> isspace d" by auto
      with True Cons ih show ?thesis by (simp add: isspace_def)
    qed
  next
    case False
    with "2.IH"(2) [OF False] show ?thesis
      by (cases "collapse_runs cs") auto
  qed
qed

lemma single_spaced_append: "single_spaced (xs @ ys) \<Longrightarrow> single_spaced xs \<and> single_spaced ys"
proof (induction xs rule: single_spaced.induct)
  case 1
  then show ?case by simp
next
  case (2 c)
  then show ?case by (cases ys) auto
next
  case (3 c d cs)
  then show ?case by auto
qed

lemma rstrip_split: "rev (dropWhile P (rev xs)) @ rev (takeWhile P (rev xs)) = xs"
proof -
  have "rev (dropWhile P (rev xs)) @ rev (takeWhile P (rev xs))
        = rev (takeWhile P (rev xs) @ dropWhile P (rev xs))"
    by (simp only: rev_append)
  also have "\<dots> = rev (rev xs)" by (simp only: takeWhile_dropWhile_id)
  finally show ?thesis by simp
qed

lemma strip_split:
  "dropWhile isspace s = strip s @ rev (takeWhile isspace (rev (dropWhile isspace s)))"
  unfolding strip_def by (rule rstrip_split [symmetric])

lemma strip_parts: "\<exists>pre post. s = pre @ strip s @ post"
proof -
  have "s = takeWhile isspace s @ dropWhile isspace s" by simp
  with strip_split [of s] show ?thesis by metis
qed

lemma single_spaced_strip: "single_spaced s \<Longrightarrow> single_spaced (strip s)"
proof -
  assume a: "single_spaced s"
  obtain pre post where "s = pre @ strip s @ post" using strip_parts by blast
  with a have "single_spaced (pre @ (strip s @ post))" by simp
  then have "single_spaced (strip s @ post)" using single_spaced_append by blast
  then show ?thesis using single_spaced_append by blast
qed

lemma strip_last: "strip s \<noteq> [] \<Longrightarrow> \<not> isspace (last (strip s))"
  unfolding strip_def by (simp add: last_rev hd_dropWhile)

lemma strip_hd: "strip s \<noteq> [] \<Longrightarrow> \<not> isspace (hd (strip s))"
proof -
  assume ne: "strip s \<noteq> []"
  let ?a = "dropWhile isspace s"
  have 2: "?a = strip s @ rev (takeWhile isspace (rev ?a))" by (rule strip_split)
  with ne have "hd ?a = hd (strip s)" by (metis hd_append2)
  moreover from 2 ne have "?a \<noteq> []" by (metis append_is_Nil_conv)
  ultimately show ?thesis using dropWhile_hd [of isspace s] by simp
qed

lemma dropWhile_id: "xs = [] \<or> \<not> P (hd xs) \<Longrightarrow> dropWhile P xs = xs"
  by (cases xs) auto

lemma strip_id:
  assumes "s = [] \<or> (\<not> isspace (hd s) \<and> \<not> isspace (last s))"
  shows "strip s = s"
proof -
  have 1: "dropWhile isspace s = s" using assms by (intro dropWhile_id) auto
  have "rev s = [] \<or> \<not> isspace (hd (rev s))"
  proof (cases "s = []")
    case True then show ?thesis by simp
  next
    case False
    then have "hd (rev s) = last s" by (simp add: hd_rev)
    with assms False show ?thesis by simp
  qed
  then have "dropWhile isspace (rev s) = rev s" by (rule dropWhile_id)
  with 1 show ?thesis by (simp add: strip_def)
qed

lemma collapse_id: "single_spaced s \<Longrightarrow> collapse_runs s = s"
  by (induction s rule: single_spaced.induct) auto

lemma cleanup_idem: "cleanup (cleanup s) = cleanup s"
proof -
  let ?n = "strip (collapse_runs s)"
  have ss: "single_spaced ?n" by (simp add: single_spaced_strip single_spaced_collapse)
  then have "collapse_runs ?n = ?n" by (rule collapse_id)
  moreover have "strip ?n = ?n"
    by (rule strip_id) (use strip_hd [of "collapse_runs s"] strip_last [of "collapse_runs s"] in auto)
  ultimately show ?thesis by (simp add: cleanup_eq)
qed

lemma run_family_changes:
  "run_family ic mk i rules (s, ch) = (s', ch') \<Longrightarrow>
     length ch \<le> length ch' \<and> (length ch' = length ch \<longrightarrow> s' = s)"
proof (induction rules arbitrary: i s ch)
  case Nil
  then show ?case by simp
next
  case (Cons rule rules)
  obtain pat rep where rule: "rule = (pat, rep)" by (cases rule)
  show ?case
  proof (cases "re_search ic pat s")
    case True
    with Cons.prems rule
    have "run_family ic mk (Suc i) rules (re_sub ic pat rep s, ch @ [mk i]) = (s', ch')" by simp
    from Cons.IH [OF this] show ?thesis by auto
  next
    case False
    with Cons.prems rule
    have "run_family ic mk (Suc i) rules (s, ch) = (s', ch')" by simp
    from Cons.IH [OF this] show ?thesis .
  qed
qed

lemma run_family_no_change:
  "run_family ic mk i rules (s, ch) = (s', []) \<Longrightarrow> s' = s \<and> ch = []"
  using run_family_changes [of ic mk i rules s ch s' "[]"] by auto

lemma rewrite_no_change:
  assumes "rewrite t pii sql = (s, [])"
  shows "s = t"
proof -
  obtain s1 c1 where 1: "run_family True Removed_instruction 0 instruction_patterns (t, []) = (s1, c1)"
    by (cases "run_family True Removed_instruction 0 instruction_patterns (t, [])")
  define st2 where "st2 = (if pii then run_family False Redacted_PII 0 pii_patterns (s1, c1) else (s1, c1))"
  obtain s2 c2 where 2: "st2 = (s2, c2)" by (cases st2)
  have "rewrite t pii sql = (if sql then run_family True Removed_SQL 0 sql_patterns st2 else st2)"
    by (simp add: rewrite_def Let_def st2_def 1)
  with assms 2
  have 3: "(if sql then run_family True Removed_SQL 0 sql_patterns (s2, c2) else (s2, c2)) = (s, [])"
    by (cases sql) auto
  have e3: "s = s2 \<and> c2 = []"
  proof (cases sql)
    case True
    with 3 show ?thesis using run_family_no_change by simp
  next
    case False
    with 3 show ?thesis by simp
  qed
  have e2: "s2 = s1 \<and> c1 = []"
  proof (cases pii)
    case True
    with 2 e3 have "run_family False Redacted_PII 0 pii_patterns (s1, c1) = (s2, [])"
      by (simp add: st2_def)
    then show ?thesis using run_family_no_change by simp
  next
    case False
    with 2 e3 show ?thesis by (simp add: st2_def)
  qed
  with 1 have "run_family True Removed_instruction 0 instruction_patterns (t, []) = (s1, [])"
    by simp
  then have "s1 = t" using run_family_no_change by simp
  with e2 e3 show ?thesis by simp
qed

lemma single_spaced_set: "single_spaced s \<Longrightarrow> c \<in> set s \<Longrightarrow> isspace c \<Longrightarrow> c = CHR '' ''"
  by (induction s rule: single_spaced.induct) auto

lemma single_spaced_nth:
  "single_spaced s \<Longrightarrow> Suc i < length s \<Longrightarrow> isspace (s ! i) \<Longrightarrow> \<not> isspace (s ! Suc i)"
proof (induction s arbitrary: i rule: single_spaced.induct)
  case 1
  then show ?case by simp
next
  case (2 c)
  then show ?case by simp
next
  case (3 c d cs)
  show ?case
  proof (cases i)
    case 0
    with "3.prems" show ?thesis by simp
  next
    case (Suc k)
    with "3.prems" "3.IH" [of k] show ?thesis by simp
  qed
qed

lemma single_spaced_cleanup: "single_spaced (cleanup s)"
  by (simp add: cleanup_eq single_spaced_strip single_spaced_collapse)

lemma sanitize_text: "fst (sanitize t pii sql) = cleanup (fst (rewrite t pii sql))"
  by (simp add: sanitize_def split: prod.splits)

lemma sanitize_changes: "snd (sanitize t pii sql) = snd (rewrite t pii sql)"
  by (simp add: sanitize_def split: prod.splits)

section \<open>Sanitizer: evaluated examples\<close>

lemma sanitize_two_spaces: "sanitize ''a  b'' True True = (''a b'', [])"
  by code_simp

lemma sanitize_one_space: "sanitize ''a b'' True True = (''a b'', [])"
  by code_simp

lemma sanitize_four_dashes: "sanitize ''----'' True True = (''--'', [Removed_SQL 2])"
  by code_simp

lemma sanitize_two_dashes: "sanitize ''--'' True True = ([], [Removed_SQL 2])"
  by code_simp

text \<open>
  A card number whose first two groups are two spaces apart is no match for the card
  pattern, which allows one separator; the closing step brings the groups one space
  apart, and a second pass redacts the number.
\<close>

lemma sanitize_card_two_spaces:
  "sanitize ''1234  5678 9012 3456'' True True = (''1234 5678 9012 3456'', [])"
  by code_simp

lemma sanitize_card_one_space:
  "sanitize ''1234 5678 9012 3456'' True True = (''[CARD_REDACTED]'', [Redacted_PII 2])"
  by code_simp

section \<open>Claims on the sanitizer\<close>

text \<open>
  Claim C1, as amended. With both optional families enabled, for every text \<open>t\<close>: if
  sanitizing \<open>sanitize t\<close> again fires no rule (the second call's change list is
  empty), the second call returns the string unchanged. The claim as stated, that the
  second change list is always empty and the string always identical, fails: see
  \<open>sanitize_not_idempotent\<close>.
\<close>

theorem sanitize_again_without_changes:
  "snd (sanitize (fst (sanitize t True True)) True True) = [] \<Longrightarrow>
   fst (sanitize (fst (sanitize t True True)) True True) = fst (sanitize t True True)"
proof -
  assume a: "snd (sanitize (fst (sanitize t True True)) True True) = []"
  let ?s = "fst (sanitize t True True)"
  have s: "?s = cleanup (fst (rewrite t True True))" by (rule sanitize_text)
  obtain r2 c2 where 2: "rewrite ?s True True = (r2, c2)" by (cases "rewrite ?s True True")
  with a have "c2 = []" by (simp add: sanitize_changes)
  with 2 have "r2 = ?s" using rewrite_no_change by blast
  with 2 have "fst (sanitize ?s True True) = cleanup ?s" by (simp add: sanitize_text)
  also have "\<dots> = ?s" by (simp add: s cleanup_idem)
  finally show ?thesis .
qed

text \<open>Witness of C1 as amended, at the text \<open>a  b\<close> (two spaces).\<close>

theorem sanitize_again_without_changes_witness:
  "snd (sanitize (fst (sanitize ''a  b'' True True)) True True) = [] \<and>
   fst (sanitize (fst (sanitize ''a  b'' True True)) True True) = fst (sanitize ''a  b'' True True)"
  using sanitize_again_without_changes [of "''a  b''"]
  by (simp add: sanitize_two_spaces sanitize_one_space)

text \<open>
  Counterexample to C1 as stated: the text \<open>----\<close> is sanitized to \<open>--\<close> (the comment
  rule removes the last two dashes), and sanitizing \<open>--\<close> removes it again: the
  second call changes the string and reports a change.
\<close>

theorem sanitize_not_idempotent:
  "fst (sanitize (fst (sanitize ''----'' True True)) True True) \<noteq> fst (sanitize ''----'' True True)
   \<and> snd (sanitize (fst (sanitize ''----'' True True)) True True) \<noteq> []"
  by (simp add: sanitize_four_dashes sanitize_two_dashes)

text \<open>
  Claim C10. For every text and every setting of the two switches, the string that
  \<open>sanitize\<close> returns is the rewritten text with every maximal run of whitespace
  replaced by one space and the whitespace at both ends removed: its only whitespace
  characters are single spaces, no two of them adjacent, none first or last. This holds
  whether or not a rule matched; the text \<open>a  b\<close> (two spaces) comes back as \<open>a b\<close> with
  an empty change list.
\<close>

theorem sanitize_normalizes_whitespace:
  "(let out = fst (sanitize t remove_pii remove_sql) in
     out = strip (collapse_runs (fst (rewrite t remove_pii remove_sql))) \<and>
     (\<forall>c\<in>set out. isspace c \<longrightarrow> c = CHR '' '') \<and>
     (\<forall>i. Suc i < length out \<longrightarrow> \<not> (isspace (out ! i) \<and> isspace (out ! Suc i))) \<and>
     (out \<noteq> [] \<longrightarrow> \<not> isspace (hd out) \<and> \<not> isspace (last out)))
   \<and> sanitize ''a  b'' True True = (''a b'', [])
   \<and> fst (sanitize ''a  b'' True True) \<noteq> ''a  b''"
proof -
  let ?out = "fst (sanitize t remove_pii remove_sql)"
  let ?mid = "fst (rewrite t remove_pii remove_sql)"
  have eq: "?out = strip (collapse_runs ?mid)" by (simp add: sanitize_text cleanup_eq)
  have ss: "single_spaced ?out" by (simp add: sanitize_text single_spaced_cleanup)
  have 1: "\<forall>c\<in>set ?out. isspace c \<longrightarrow> c = CHR '' ''"
    using ss single_spaced_set by blast
  have 2: "\<forall>i. Suc i < length ?out \<longrightarrow> \<not> (isspace (?out ! i) \<and> isspace (?out ! Suc i))"
    using ss single_spaced_nth by blast
  have 3: "?out \<noteq> [] \<longrightarrow> \<not> isspace (hd ?out) \<and> \<not> isspace (last ?out)"
    unfolding eq using strip_hd strip_last by blast
  have 4: "sanitize ''a  b'' True True = (''a b'', [])" by (rule sanitize_two_spaces)
  have 5: "fst (sanitize ''a  b'' True True) \<noteq> ''a  b''" by (simp add: sanitize_two_spaces)
  from eq 1 2 3 4 5 show ?thesis unfolding Let_def by blast
qed

text \<open>Witness of C10 at the text \<open>a  b\<close>, whose result holds a space.\<close>

theorem sanitize_normalizes_whitespace_witness:
  "(let out = fst (sanitize ''a  b'' True True) in
     CHR '' '' \<in> set out \<and> isspace (CHR '' '') \<and>
     Suc 0 < length out \<and> \<not> (isspace (out ! 0) \<and> isspace (out ! Suc 0)) \<and>
     out \<noteq> [] \<and> \<not> isspace (hd out) \<and> \<not> isspace (last out))"
proof -
  have e: "fst (sanitize ''a  b'' True True) = ''a b''" by (simp add: sanitize_two_spaces)
  note th = sanitize_normalizes_whitespace [of "''a  b''" True True, unfolded Let_def e]
  from th have 2: "Suc 0 < length ''a b'' \<longrightarrow> \<not> (isspace (''a b'' ! 0) \<and> isspace (''a b'' ! Suc 0))"
    by blast
  from th have 3: "''a b'' \<noteq> [] \<longrightarrow> \<not> isspace (hd ''a b'') \<and> \<not> isspace (last ''a b'')"
    by blast
  have 1: "CHR '' '' \<in> set ''a b'' \<and> isspace (CHR '' '')" by (simp add: isspace_def)
  from 1 2 3 show ?thesis unfolding Let_def e by simp
qed

section \<open>Claims on the detector\<close>

lemma matches_two_jailbreaks: "pattern_matches (lower ''jailbreak jailbreak'') = 1"
  by code_simp

lemma occurrences_two_jailbreaks: "occurrence_score ''jailbreak jailbreak'' = 40"
  by code_simp

lemma matches_jailbreak_disregard: "pattern_matches (lower ''jailbreak disregard'') = 2"
  by code_simp

lemma categories_jailbreak_disregard:
  "pattern_categories (lower ''jailbreak disregard'') = [''prompt_injection'']"
  by code_simp

lemma matches_two_dashes: "pattern_matches (lower ''--'') = 0"
  by code_simp

lemma categories_two_dashes: "pattern_categories (lower ''--'') = []"
  by code_simp

lemma detect_jailbreak_disregard:
  "detect_with_patterns ''jailbreak disregard'' =
     \<lparr> threat_score = 40, threat_level = MEDIUM, is_malicious = True,
       categories = [''prompt_injection''], confidence = 0.7, details = Some 2 \<rparr>"
  by (simp add: detect_with_patterns_def Let_def matches_jailbreak_disregard
        categories_jailbreak_disregard level_of_score_def)

lemma detect_two_dashes:
  "detect_with_patterns ''--'' =
     \<lparr> threat_score = 0, threat_level = SAFE, is_malicious = False,
       categories = [], confidence = 0.7, details = Some 0 \<rparr>"
  by (simp add: detect_with_patterns_def Let_def matches_two_dashes categories_two_dashes
        level_of_score_def)

text \<open>
  Claim C3, as amended. For every classification result of the lexical strategy the
  severity tier is the step function of the risk score with breakpoints 20/40/60/80:
  below 20 safe, below 40 low, below 60 medium, below 80 high, else critical. The
  boundaries are exact: 40 is medium, 39.999 is low, 80 is critical, 79.999 is high.
\<close>

theorem severity_step_function:
  "threat_level (detect_with_patterns t) = level_of_score (threat_score (detect_with_patterns t))
   \<and> level_of_score x =
       (if x < 20 then SAFE else if x < 40 then LOW else if x < 60 then MEDIUM
        else if x < 80 then HIGH else CRITICAL)
   \<and> level_of_score 40 = MEDIUM \<and> level_of_score 39.999 = LOW
   \<and> level_of_score 80 = CRITICAL \<and> level_of_score 79.999 = HIGH"
  by (simp add: level_of_score_def detect_with_patterns_def Let_def)

text \<open>
  Counterexample to C3 as stated: the score 80 is tier critical, not high, and the
  score 79.999 is tier high, not medium.
\<close>

theorem severity_at_80_is_critical:
  "level_of_score 80 = CRITICAL \<and> level_of_score 80 \<noteq> HIGH
   \<and> level_of_score 79.999 = HIGH \<and> level_of_score 79.999 \<noteq> MEDIUM"
  by (simp add: level_of_score_def)

text \<open>
  The external strategy has its own breakpoints, 30/50/70/90 on the scale of the
  stored score: a result with score 0.85 is stored as 85 with tier high.
\<close>

lemma shield_tiers_differ:
  "(let d = detect_with_shield
              (Some \<lparr> s_threat_score = 0.85, s_categories = [], s_confidence = 0.9 \<rparr>) t 0.5
    in threat_score d = 85 \<and> threat_level d = HIGH \<and> level_of_score (threat_score d) = CRITICAL)"
  by (simp add: detect_with_shield_def Let_def level_of_score_def)

lemma is_in_occurrences: "pat \<noteq> [] \<Longrightarrow> is_in pat s = (0 < occurrences pat s)"
  by (induction s) auto

lemma patterns_nonempty: "\<forall>pat\<in>set malicious_patterns. pat \<noteq> []"
  by (simp add: malicious_patterns_def)

lemma patterns_distinct: "distinct malicious_patterns"
  by (simp add: malicious_patterns_def)

lemma filter_is_in_occurrences:
  "filter (\<lambda>pat. is_in pat s) malicious_patterns
     = filter (\<lambda>pat. 0 < occurrences pat s) malicious_patterns"
  by (rule filter_cong) (use patterns_nonempty is_in_occurrences in auto)

lemma phrases_counted_once:
  "length (filter (\<lambda>pat. is_in pat s) malicious_patterns)
     = card {pat \<in> set malicious_patterns. 0 < occurrences pat s}"
proof -
  have "length (filter (\<lambda>pat. 0 < occurrences pat s) malicious_patterns)
        = card ({pat. 0 < occurrences pat s} \<inter> set malicious_patterns)"
    using patterns_distinct by (rule distinct_length_filter)
  moreover have "{pat. 0 < occurrences pat s} \<inter> set malicious_patterns
        = {pat \<in> set malicious_patterns. 0 < occurrences pat s}" by auto
  ultimately show ?thesis by (simp add: filter_is_in_occurrences)
qed

text \<open>
  The text is lower-cased and the phrases are compared as they are listed, so the
  listed phrase \<open>DAN mode\<close>, with its capitals, is not found where it occurs.
\<close>

lemma listed_phrase_with_capitals: "pattern_matches (lower ''DAN mode'') = 0"
  by code_simp

text \<open>
  Claim C6, as amended. For every text the lexical strategy lower-cases the text,
  counts the listed phrases that occur in it (each phrase once, however often it
  occurs), sets the risk score to that count times 20 clamped to [0, 100], and flags
  the text if and only if the score is at least 40.
\<close>

theorem lexical_score_counts_phrases:
  "threat_score (detect_with_patterns t) =
     real (min (length (filter (\<lambda>pat. is_in pat (lower t)) malicious_patterns) * 20) 100)
   \<and> threat_score (detect_with_patterns t) =
     real (min (card {pat \<in> set malicious_patterns. 0 < occurrences pat (lower t)} * 20) 100)
   \<and> 0 \<le> threat_score (detect_with_patterns t)
   \<and> threat_score (detect_with_patterns t) \<le> 100
   \<and> is_malicious (detect_with_patterns t) = (threat_score (detect_with_patterns t) \<ge> 40)"
proof -
  have 1: "threat_score (detect_with_patterns t) =
     real (min (length (filter (\<lambda>pat. is_in pat (lower t)) malicious_patterns) * 20) 100)"
    by (simp add: detect_with_patterns_def Let_def pattern_matches_def)
  have 2: "is_malicious (detect_with_patterns t) = (threat_score (detect_with_patterns t) \<ge> 40)"
    by (simp add: detect_with_patterns_def Let_def)
  from 1 2 show ?thesis by (simp add: phrases_counted_once)
qed

text \<open>
  Counterexample to C6 as stated: in \<open>jailbreak jailbreak\<close> a listed phrase occurs
  twice; the occurrence count times 20 is 40, but the code's score is 20 and the text
  is not flagged.
\<close>

theorem lexical_score_not_occurrence_count:
  "occurrence_score ''jailbreak jailbreak'' = 40
   \<and> threat_score (detect_with_patterns ''jailbreak jailbreak'') = 20
   \<and> \<not> is_malicious (detect_with_patterns ''jailbreak jailbreak'')"
  by (simp add: occurrences_two_jailbreaks detect_with_patterns_def Let_def
        matches_two_jailbreaks)

section \<open>Claims on the policy engine\<close>

lemma evaluate_first:
  "i < length ps \<Longrightarrow> matches (ps ! i) d \<Longrightarrow> (\<forall>j<i. \<not> matches (ps ! j) d)
   \<Longrightarrow> evaluate ps d = to_match (ps ! i) d"
proof (induction ps arbitrary: i)
  case Nil
  then show ?case by simp
next
  case (Cons p ps)
  show ?case
  proof (cases i)
    case 0
    with Cons.prems show ?thesis by simp
  next
    case (Suc k)
    with Cons.prems have "\<not> matches p d" by auto
    moreover have "evaluate ps d = to_match (ps ! k) d"
      using Cons.prems Suc by (intro Cons.IH) auto
    ultimately show ?thesis using Suc by simp
  qed
qed

lemma evaluate_none: "(\<forall>p\<in>set ps. \<not> matches p d) \<Longrightarrow> evaluate ps d = default_allow"
  by (induction ps) auto

text \<open>
  Claim C2, as amended. Evaluation is first-match-wins: for every classification
  result and every rule sequence, \<open>evaluate\<close> returns the match of the earliest rule
  whose match predicate holds, carrying that rule's name and action, whatever the later
  rules are; if no rule matches it returns the default match named \<open>default_allow\<close>
  with action allow, severity safe and reason \<open>No policy matched - default allow\<close>.
  It always returns a match.
\<close>

theorem evaluate_first_match_wins:
  "(i < length ps \<and> matches (ps ! i) d \<and> (\<forall>j<i. \<not> matches (ps ! j) d) \<longrightarrow>
      evaluate ps d = to_match (ps ! i) d \<and>
      policy_name (evaluate ps d) = name (ps ! i) \<and>
      pm_action (evaluate ps d) = action (ps ! i))
   \<and> ((\<forall>p\<in>set ps. \<not> matches p d) \<longrightarrow> evaluate ps d = default_allow)
   \<and> default_allow =
       \<lparr> policy_name = ''default_allow'', pm_action = ALLOW, pm_severity = SAFE,
         reason = ''No policy matched - default allow'', metadata = None \<rparr>"
  using evaluate_first [of i ps d] evaluate_none [of ps d]
  by (auto simp: to_match_def default_allow_def)

text \<open>
  Witness of C2 as amended: two enabled rules that both match, the earlier blocking
  and the later sanitizing, give the earlier rule's action; a single rule that does
  not match gives the default.
\<close>

theorem evaluate_first_match_wins_witness:
  "(0 < length [block_all, sanitize_all] \<and> matches block_all safe_detection
      \<and> matches sanitize_all safe_detection
      \<and> pm_action (evaluate [block_all, sanitize_all] safe_detection) = BLOCK)
   \<and> (\<not> matches alert_critical safe_detection
      \<and> evaluate [alert_critical] safe_detection = default_allow)"
proof -
  have m: "matches block_all safe_detection" "matches sanitize_all safe_detection"
    "\<not> matches alert_critical safe_detection"
    by (simp_all add: matches_def block_all_def sanitize_all_def alert_critical_def
          safe_detection_def)
  from m evaluate_first_match_wins [of 0 "[block_all, sanitize_all]" safe_detection]
  have "pm_action (evaluate [block_all, sanitize_all] safe_detection) = action block_all"
    by simp
  moreover from m evaluate_first_match_wins [of 0 "[alert_critical]" safe_detection]
  have "evaluate [alert_critical] safe_detection = default_allow"
    by simp
  ultimately show ?thesis using m by (simp add: block_all_def)
qed

text \<open>
  Counterexample to C2 as stated: the reason of the default match is the text
  \<open>No policy matched - default allow\<close>, not \<open>no policy matched\<close>.
\<close>

theorem default_reason_text:
  "reason (evaluate [] safe_detection) = ''No policy matched - default allow''
   \<and> reason (evaluate [] safe_detection) \<noteq> ''no policy matched''"
  by (simp add: default_allow_def)

lemma default_engine:
  "policies (load_default_policies eng) =
    [\<lparr> name = ''block_critical_threats'', enabled = True, action = BLOCK, severity = CRITICAL,
        threshold = 0.85, description = ''Block critical threats immediately'', conditions = None \<rparr>,
     \<lparr> name = ''sanitize_high_threats'', enabled = True, action = SANITIZE, severity = HIGH,
        threshold = 0.65, description = ''Sanitize high-severity prompts'', conditions = None \<rparr>,
     \<lparr> name = ''log_medium_threats'', enabled = True, action = LOG, severity = MEDIUM,
        threshold = 0.40, description = ''Log medium-severity prompts'', conditions = None \<rparr>,
     \<lparr> name = ''allow_safe_prompts'', enabled = True, action = ALLOW, severity = SAFE,
        threshold = 0.0, description = ''Allow safe prompts'', conditions = None \<rparr>]"
  by (simp add: load_default_policies_def default_policies_def Policy_init_def)

lemma load_fail_default:
  "snd (try_load src eng) \<noteq> None \<Longrightarrow>
   load_policies src eng = load_default_policies (fst (try_load src eng))"
  by (cases "try_load src eng") (auto simp: load_policies_def)

lemma try_load_bad_action:
  "try_load (Document [good_entry, bad_action_entry]) \<lparr>policies = [sanitize_all]\<rparr>
     = (\<lparr>policies = [block_all]\<rparr>, Some Value_error)"
  by (simp add: try_load_def good_entry_def bad_action_entry_def Policy_init_def block_all_def)

text \<open>
  Claim C5, as amended. For every load of a rule source that fails (the source cannot
  be read, or an entry does not construct), the engine's rule set afterwards is the
  built-in four-rule default (block critical at 0.85, sanitize high at 0.65, log
  medium at 0.40, allow safe at 0.0, in that order), whatever set was active before; a
  failed load never leaves a half-updated rule set.
\<close>

theorem failed_load_gives_defaults:
  "snd (try_load src eng) \<noteq> None \<Longrightarrow>
   policies (load_policies src eng) =
    [\<lparr> name = ''block_critical_threats'', enabled = True, action = BLOCK, severity = CRITICAL,
        threshold = 0.85, description = ''Block critical threats immediately'', conditions = None \<rparr>,
     \<lparr> name = ''sanitize_high_threats'', enabled = True, action = SANITIZE, severity = HIGH,
        threshold = 0.65, description = ''Sanitize high-severity prompts'', conditions = None \<rparr>,
     \<lparr> name = ''log_medium_threats'', enabled = True, action = LOG, severity = MEDIUM,
        threshold = 0.40, description = ''Log medium-severity prompts'', conditions = None \<rparr>,
     \<lparr> name = ''allow_safe_prompts'', enabled = True, action = ALLOW, severity = SAFE,
        threshold = 0.0, description = ''Allow safe prompts'', conditions = None \<rparr>]"
  by (simp add: load_fail_default default_engine)

text \<open>
  Witness of C5 as amended: a document whose second entry has the action
  \<open>quarantine\<close>, loaded into an engine holding one rule. The loop stops with the
  first entry appended; the engine ends with the four defaults.
\<close>

theorem failed_load_gives_defaults_witness:
  "snd (try_load (Document [good_entry, bad_action_entry]) \<lparr>policies = [sanitize_all]\<rparr>) \<noteq> None
   \<and> policies (fst (try_load (Document [good_entry, bad_action_entry])
         \<lparr>policies = [sanitize_all]\<rparr>)) = [block_all]
   \<and> map action (policies (load_policies (Document [good_entry, bad_action_entry])
         \<lparr>policies = [sanitize_all]\<rparr>)) = [BLOCK, SANITIZE, LOG, ALLOW]"
  using failed_load_gives_defaults
    [of "Document [good_entry, bad_action_entry]" "\<lparr>policies = [sanitize_all]\<rparr>"]
  by (simp add: try_load_bad_action)

text \<open>
  Counterexample to C5 as stated: an engine whose active set is the one rule
  \<open>sanitize_all\<close> does not keep that set when a load fails.
\<close>

theorem failed_load_drops_previous_set:
  "snd (try_load Unreadable \<lparr>policies = [sanitize_all]\<rparr>) \<noteq> None
   \<and> policies (load_policies Unreadable \<lparr>policies = [sanitize_all]\<rparr>) \<noteq> [sanitize_all]"
  by (simp add: load_policies_def try_load_def default_engine sanitize_all_def)

section \<open>Claims on the audit logger\<close>

lemma update_stats_fields:
  "total_requests (update_stats r st) = total_requests st + 1"
  "blocked (update_stats r st) = blocked st + (if r_action r = BLOCK then 1 else 0)"
  "sanitized (update_stats r st) = sanitized st + (if r_action r = SANITIZE then 1 else 0)"
  "s_allowed (update_stats r st) = s_allowed st + (if r_action r = ALLOW then 1 else 0)"
  "threats_detected (update_stats r st) =
     threats_detected st + (if is_threat (r_threat_level r) then 1 else 0)"
  by (simp_all add: update_stats_def Let_def)

lemma log_request_stats: "stats (snd (log_request e rq r lg)) = update_stats r (stats lg)"
  by (simp add: log_request_def Let_def)

lemma log_request_lines:
  "audit_lines (snd (log_request e rq r lg)) =
     (if log_to_file lg \<and> audit_write_ok e then audit_lines lg @ [log_entry_of e rq r]
      else audit_lines lg)"
  by (simp add: log_request_def Let_def write_log_def)

lemma log_request_id: "fst (log_request e rq r lg) = new_id e"
  by (simp add: log_request_def Let_def)

text \<open>
  Claim C8, as amended. For every request and response, one call of \<open>log_request\<close>
  returns the fresh identifier, increments \<open>total_requests\<close> by one, increments
  \<open>blocked\<close>, \<open>sanitized\<close> or \<open>allowed\<close> by one when the response's action is block,
  sanitize or allow respectively and none of the three when it is log or alert, and,
  independently, increments the threat counter if and only if the severity tier is high
  or critical. It appends exactly one audit record when logging to file is on and the
  write goes through, and none otherwise.
\<close>

theorem log_request_effects:
  "(let lg' = snd (log_request e rq r lg); st = stats lg; st' = stats lg' in
     fst (log_request e rq r lg) = new_id e \<and>
     audit_lines lg' =
       (if log_to_file lg \<and> audit_write_ok e then audit_lines lg @ [log_entry_of e rq r]
        else audit_lines lg) \<and>
     total_requests st' = total_requests st + 1 \<and>
     blocked st' = blocked st + (if r_action r = BLOCK then 1 else 0) \<and>
     sanitized st' = sanitized st + (if r_action r = SANITIZE then 1 else 0) \<and>
     s_allowed st' = s_allowed st + (if r_action r = ALLOW then 1 else 0) \<and>
     threats_detected st' =
       threats_detected st
       + (if r_threat_level r = HIGH \<or> r_threat_level r = CRITICAL then 1 else 0))"
  by (simp add: Let_def log_request_stats log_request_lines log_request_id
        update_stats_fields is_threat_def)

text \<open>
  Counterexample to C8 as stated: recording a response whose action is \<open>log\<close>
  increments the total and none of the three counters.
\<close>

theorem log_action_counts_nowhere:
  "(let st = stats (AuditLogger_init True);
        st' = stats (snd (log_request env0 request0 log_response (AuditLogger_init True)))
    in total_requests st' = total_requests st + 1 \<and> blocked st' = blocked st \<and>
       sanitized st' = sanitized st \<and> s_allowed st' = s_allowed st)"
  by (simp add: Let_def log_request_stats update_stats_fields log_response_def)

lemma counters_ok_update: "counters_ok st \<Longrightarrow> counters_ok (update_stats r st)"
  by (simp add: counters_ok_def update_stats_fields)

lemma counters_ok_run: "counters_ok (stats lg) \<Longrightarrow> counters_ok (stats (run_ops ops lg))"
proof (induction ops arbitrary: lg)
  case Nil
  then show ?case by simp
next
  case (Cons x ops)
  show ?case
  proof (cases x)
    case (Record e rq r)
    have "counters_ok (stats (snd (log_request e rq r lg)))"
      using Cons.prems by (simp add: log_request_stats counters_ok_update)
    from Cons.IH [OF this] Record show ?thesis by simp
  next
    case Clear
    have "counters_ok (stats (clear_logs lg))"
      by (simp add: clear_logs_def Let_def counters_ok_def zero_stats_def)
    from Cons.IH [OF this] Clear show ?thesis by simp
  qed
qed

text \<open>
  Claim C9. After every sequence of recorded responses (and clears) on a new logger,
  the counters satisfy blocked + sanitized + allowed \<open>\<le>\<close> total_requests, and when
  total_requests is 0 the block rate, the sanitize rate and the threat rate of
  \<open>get_stats\<close> are 0.
\<close>

theorem stats_consistent:
  "(let lg = run_ops ops (AuditLogger_init to_file); st = stats lg in
     blocked st + sanitized st + s_allowed st \<le> total_requests st \<and>
     (total_requests st = 0 \<longrightarrow>
        block_rate (get_stats lg) = 0 \<and> sanitize_rate (get_stats lg) = 0 \<and>
        threat_rate (get_stats lg) = 0))"
proof -
  have "counters_ok (stats (AuditLogger_init to_file))"
    by (simp add: AuditLogger_init_def counters_ok_def zero_stats_def)
  then have "counters_ok (stats (run_ops ops (AuditLogger_init to_file)))"
    by (rule counters_ok_run)
  then show ?thesis by (simp add: Let_def counters_ok_def get_stats_def)
qed

text \<open>Witness of C9: one response recorded, then the ledger cleared; the total is 0.\<close>

theorem stats_consistent_witness:
  "(let lg = run_ops [Record env0 request0 log_response, Clear] (AuditLogger_init True) in
     total_requests (stats lg) = 0 \<and> block_rate (get_stats lg) = 0 \<and>
     sanitize_rate (get_stats lg) = 0 \<and> threat_rate (get_stats lg) = 0)"
  using stats_consistent [of "[Record env0 request0 log_response, Clear]" True]
  by (simp add: Let_def clear_logs_def zero_stats_def)

section \<open>Claims on the core engine\<close>

lemma check_response:
  "fst (check e el fw t u s) =
     (execute_action \<lparr> prompt = t, user_id = u, session_id = s \<rparr> (detect (detector fw) t 0.5)
        (evaluate (policies (policy_engine fw)) (detect (detector fw) t 0.5)))
       \<lparr>processing_time_ms := el\<rparr>"
  by (simp add: check_def Let_def split: prod.splits)

lemma execute_action_fields:
  "r_action (execute_action rq d pm) =
     (if pm_action pm = BLOCK then BLOCK else if pm_action pm = SANITIZE then SANITIZE else ALLOW)"
  "allowed (execute_action rq d pm) = (pm_action pm \<noteq> BLOCK)"
  "sanitized_prompt (execute_action rq d pm) =
     (if pm_action pm = SANITIZE then Some (fst (sanitize (prompt rq) True True)) else None)"
  "policy_match (execute_action rq d pm) = Some pm"
  by (simp_all add: execute_action_def split: prod.splits)

lemma evaluate_jailbreak_disregard:
  "evaluate (policies (load_default_policies eng)) (detect_with_patterns ''jailbreak disregard'')
     = \<lparr> policy_name = ''log_medium_threats'', pm_action = LOG, pm_severity = MEDIUM,
         reason = ''Log medium-severity prompts'', metadata = Some (0.4, 40) \<rparr>"
  by (simp add: default_engine detect_jailbreak_disregard matches_def to_match_def)

lemma evaluate_sanitize_all:
  "evaluate [sanitize_all] (detect_with_patterns ''--'')
     = \<lparr> policy_name = ''sanitize_all'', pm_action = SANITIZE, pm_severity = SAFE,
         reason = ''Sanitize every prompt'', metadata = Some (0, 0) \<rparr>"
  by (simp add: detect_two_dashes matches_def to_match_def sanitize_all_def)

text \<open>
  Claim C4, as amended. For every response produced by \<open>check\<close>: its action is one of
  allow, block, sanitize, log, alert; \<open>allowed\<close> is false if and only if the action is
  block; and a sanitized prompt is present if and only if the action is sanitize. A
  sanitized prompt that is present may be the empty string.
\<close>

theorem check_response_invariant:
  "(let v = fst (check e el fw t u s) in
     r_action v \<in> {ALLOW, BLOCK, SANITIZE, LOG, ALERT} \<and>
     (\<not> allowed v) = (r_action v = BLOCK) \<and>
     (sanitized_prompt v \<noteq> None) = (r_action v = SANITIZE))"
  by (simp add: Let_def check_response execute_action_fields)

text \<open>
  Counterexample to C4 as stated: under a rule set that sanitizes every prompt, the
  prompt \<open>--\<close> gets the action sanitize and the empty string as its sanitized prompt.
\<close>

theorem sanitized_prompt_may_be_empty:
  "(let fw = \<lparr> detector = None, policy_engine = \<lparr>policies = [sanitize_all]\<rparr>,
               logger = AuditLogger_init True \<rparr>;
        v = fst (check env0 1 fw ''--'' None None)
    in r_action v = SANITIZE \<and> sanitized_prompt v = Some [])"
  by (simp add: Let_def check_response execute_action_fields detect_def
        evaluate_sanitize_all sanitize_two_dashes del: evaluate.simps)

text \<open>
  Claim C7, as amended. For every request whose policy decision has action allow, log
  or alert, \<open>check\<close> produces a response with \<open>allowed\<close> true, no sanitized text and the
  action allow; the policy decision, with its own action, is kept in the response's
  \<open>policy_match\<close>.
\<close>

theorem pass_through_actions_allow:
  "pm_action (evaluate (policies (policy_engine fw)) (detect (detector fw) t 0.5))
     \<in> {ALLOW, LOG, ALERT} \<Longrightarrow>
   (let v = fst (check e el fw t u s) in
      allowed v \<and> sanitized_prompt v = None \<and> r_action v = ALLOW \<and>
      policy_match v = Some (evaluate (policies (policy_engine fw)) (detect (detector fw) t 0.5)))"
  by (auto simp add: Let_def check_response execute_action_fields)

text \<open>
  Witness of C7 as amended: the prompt \<open>jailbreak disregard\<close> under the default rules
  is decided by \<open>log_medium_threats\<close>.
\<close>

theorem pass_through_actions_allow_witness:
  "pm_action (evaluate (policies (policy_engine (create_firewall None None True)))
       (detect (detector (create_firewall None None True)) ''jailbreak disregard'' 0.5))
     \<in> {ALLOW, LOG, ALERT}
   \<and> (let v = fst (check env0 1 (create_firewall None None True) ''jailbreak disregard'' None None)
      in allowed v \<and> sanitized_prompt v = None \<and> r_action v = ALLOW)"
proof -
  have h: "pm_action (evaluate (policies (policy_engine (create_firewall None None True)))
       (detect (detector (create_firewall None None True)) ''jailbreak disregard'' 0.5))
     \<in> {ALLOW, LOG, ALERT}"
    by (simp add: create_firewall_def PolicyEngine_init_def detect_def
          evaluate_jailbreak_disregard)
  from pass_through_actions_allow [OF h, of env0 1 None None] h show ?thesis
    by (simp add: Let_def)
qed

text \<open>
  Counterexample to C7 as stated: for the prompt \<open>jailbreak disregard\<close> under the
  default rules the policy decision's action is log, and the response's action is
  allow.
\<close>

theorem log_decision_recorded_as_allow:
  "(let v = fst (check env0 1 (create_firewall None None True) ''jailbreak disregard'' None None)
    in map_option pm_action (policy_match v) = Some LOG \<and> r_action v = ALLOW \<and> r_action v \<noteq> LOG)"
  by (simp add: Let_def check_response execute_action_fields detect_def create_firewall_def
        PolicyEngine_init_def evaluate_jailbreak_disregard)

end
